theory Spec2Isabelle
  imports Main "HOL-Library.Char_ord" "HOL-Library.List_Lexorder"
begin

section \<open>Values of a loaded column\<close>

text \<open>
  A Python \<open>str\<close> is modelled as the list of its code points, for code points below 256
  (the range of \<^typ>\<open>char\<close>); the order on \<^typ>\<open>string\<close> is the lexicographic order
  by code point, which is how Python compares \<open>str\<close> values. The library calls
  are read with the meaning they have in pandas 2.

  The cells of a column of the loaded table are the objects \<open>pd.read_csv\<close> (line 52)
  can put into a column: text, an integer, a float, a boolean, or the missing value
  \<open>NaN\<close>. A float other than \<open>NaN\<close> is carried as the text Python's \<open>str\<close> gives for
  it (floating-point formatting itself is not modelled).
\<close>

datatype cell = PStr string | PInt int | PFloat string | PBool bool | PNaN

type_synonym series = "cell list"

definition digit_char :: "nat \<Rightarrow> char" where
  "digit_char d = char_of (48 + d)"

fun str_nat :: "nat \<Rightarrow> string" where
  "str_nat n = (if n < 10 then [digit_char n] else str_nat (n div 10) @ [digit_char (n mod 10)])"

declare str_nat.simps [simp del]

definition str_int :: "int \<Rightarrow> string" where
  "str_int i = (if i < 0 then CHR ''-'' # str_nat (nat (- i)) else str_nat (nat i))"

text \<open>\<open>Series.astype(str)\<close>: every element becomes the text \<open>str\<close> gives for it.\<close>

fun astype_str :: "cell \<Rightarrow> string" where
  "astype_str (PStr s) = s"
| "astype_str (PInt i) = str_int i"
| "astype_str (PFloat r) = r"
| "astype_str (PBool b) = (if b then ''True'' else ''False'')"
| "astype_str PNaN = ''nan''"

text \<open>
  \<open>str.isspace\<close> on one character, which is also the class \<open>\s\<close> of \<open>re\<close> on \<open>str\<close>
  patterns: code points 9 to 13, 28 to 32, 133 and 160.
\<close>

definition isspace :: "char \<Rightarrow> bool" where
  "isspace c = (let n = (of_char c :: nat)
                in (9 \<le> n \<and> n \<le> 13) \<or> (28 \<le> n \<and> n \<le> 32) \<or> n = 133 \<or> n = 160)"

text \<open>\<open>Series.str.strip()\<close> applies \<open>str.strip()\<close> to every element.\<close>

definition strip :: "string \<Rightarrow> string" where
  "strip s = rev (dropWhile isspace (rev (dropWhile isspace s)))"

section \<open>Replacement, dropping, counting and sorting\<close>

definition null_tokens :: "string list" where
  "null_tokens = ['''', ''nan'', ''NaN'', ''null'', ''NULL'']"

text \<open>\<open>Series.replace(to_replace, v)\<close> with a list: elements equal to a member become \<open>v\<close>.\<close>

definition replace_list :: "'a list \<Rightarrow> 'a \<Rightarrow> 'a list \<Rightarrow> 'a list" where
  "replace_list to_replace v xs = map (\<lambda>x. if x \<in> set to_replace then v else x) xs"

text \<open>
  The pattern \<open>^\s*$\<close> of lines 110, 150 and 192 finds a match in a text exactly when
  every character of the text is whitespace, and the match is then the whole text.
\<close>

definition blank :: "string \<Rightarrow> bool" where
  "blank s = list_all isspace s"

text \<open>
  \<open>Series.replace(pattern, v, regex=True)\<close>. With a text \<open>v\<close> (line 110) pandas
  substitutes \<open>v\<close> for the match; with \<open>pd.NA\<close> (lines 150, 192) an element with a
  match becomes \<open>pd.NA\<close>, and an element that is not text is left alone. \<open>None\<close> is
  \<open>pd.NA\<close>.
\<close>

definition replace_regex_blank :: "string \<Rightarrow> string list \<Rightarrow> string list" where
  "replace_regex_blank v xs = map (\<lambda>s. if blank s then v else s) xs"

definition replace_regex_blank_na :: "string option list \<Rightarrow> string option list" where
  "replace_regex_blank_na xs =
     map (\<lambda>x. case x of None \<Rightarrow> None | Some s \<Rightarrow> if blank s then None else Some s) xs"

fun dropna :: "'a option list \<Rightarrow> 'a list" where
  "dropna [] = []"
| "dropna (None # xs) = dropna xs"
| "dropna (Some x # xs) = x # dropna xs"

text \<open>
  \<open>Series.value_counts().reset_index()\<close>: one row per distinct value with the number of
  its occurrences, the rows in descending order of count (values of equal count in the
  order of their first occurrence).
\<close>

definition unique :: "'a list \<Rightarrow> 'a list" where
  "unique xs = rev (remdups (rev xs))"

definition value_counts :: "string list \<Rightarrow> (string \<times> nat) list" where
  "value_counts xs =
     sort_key (\<lambda>r. - int (snd r)) (map (\<lambda>l. (l, count_list xs l)) (unique xs))"

text \<open>\<open>DataFrame.sort_values(label).reset_index(drop=True)\<close>: rows ascending by label.\<close>

definition sort_values :: "(string \<times> nat) list \<Rightarrow> (string \<times> nat) list" where
  "sort_values rows = sort_key fst rows"

section \<open>The three summaries\<close>

text \<open>Lines 106 to 117 of \<open>process_os_summary\<close>.\<close>

definition os_cleaned :: "series \<Rightarrow> string list" where
  "os_cleaned os_column =
     replace_regex_blank ''Unknown''
       (replace_list null_tokens ''Unknown'' (map strip (map astype_str os_column)))"

definition os_counts :: "series \<Rightarrow> (string \<times> nat) list" where
  "os_counts os_column = sort_values (value_counts (os_cleaned os_column))"

text \<open>Lines 146 to 160 of \<open>process_hostname_summary\<close>.\<close>

definition hostname_cleaned :: "series \<Rightarrow> string list" where
  "hostname_cleaned hostname_column =
     dropna (replace_regex_blank_na
       (replace_list (map Some null_tokens) None
          (map Some (map strip (map astype_str hostname_column)))))"

definition hostname_counts :: "series \<Rightarrow> (string \<times> nat) list" where
  "hostname_counts hostname_column = sort_values (value_counts (hostname_cleaned hostname_column))"

text \<open>Lines 188 to 202 of \<open>process_vulnerability_summary\<close>.\<close>

definition vuln_cleaned :: "series \<Rightarrow> string list" where
  "vuln_cleaned vuln_column =
     dropna (replace_regex_blank_na
       (replace_list (map Some null_tokens) None
          (map Some (map strip (map astype_str vuln_column)))))"

definition vuln_counts :: "series \<Rightarrow> (string \<times> nat) list" where
  "vuln_counts vuln_column = sort_values (value_counts (vuln_cleaned vuln_column))"

section \<open>Writing a report\<close>

text \<open>
  A summary table as it is written: the two column labels assigned in lines 114, 157
  and 199, and the rows.
\<close>

record report =
  header :: "string \<times> string"
  entries :: "(string \<times> nat) list"

text \<open>One constructor for each \<open>print\<close> call of the script, with the values it shows.\<close>

datatype message =
    InputNotFound string
  | Reading string
  | TooFewColumns nat
  | Proceeding
  | ProcessingOS
  | ProcessingHostnames
  | ProcessingVulnerabilities
  | ReportsGenerated
  | ListedOS string
  | ListedHostname string
  | ListedVulnerability string
  | ProcessingError string
  | SavedOS string
  | FoundOS nat
  | SaveErrorOS string
  | SavedHostname string
  | FoundHostnames nat
  | SaveErrorHostname string
  | SavedVulnerability string
  | FoundVulnerabilities nat
  | SaveErrorVulnerability string
  | NoInputFile string
  | Usage
  | Completed
  | Failed

text \<open>
  What a run does to the outside: a line on the console, the creation of the output
  directory, a file written, and the traceback of an exception nothing caught.
\<close>

datatype event =
    Print message
  | MakeDirs string
  | WriteFile string report
  | Traceback string

text \<open>
  What the outside answers. \<open>mkdir\<close> and \<open>to_csv\<close> give \<open>None\<close> when they succeed and
  the text of the exception when they raise; \<open>read_csv\<close> gives the loaded table, as
  the list of its columns, or the text of the exception; \<open>now\<close> is the formatted time
  of line 47.
\<close>

type_synonym dataframe = "series list"

record env =
  path_exists :: "string \<Rightarrow> bool"
  mkdir :: "string \<Rightarrow> string option"
  now :: string
  read_csv :: "string \<Rightarrow> string + dataframe"
  to_csv :: "string \<Rightarrow> report \<Rightarrow> string option"

datatype 'a outcome = Returned 'a | Raised string

text \<open>\<open>os.path.dirname\<close> and \<open>os.path.join\<close> (of two parts) on POSIX.\<close>

definition dirname :: "string \<Rightarrow> string" where
  "dirname p =
     (let head = rev (dropWhile (\<lambda>c. c \<noteq> CHR ''/'') (rev p))
      in if head \<noteq> [] \<and> \<not> list_all (\<lambda>c. c = CHR ''/'') head
         then rev (dropWhile (\<lambda>c. c = CHR ''/'') (rev head))
         else head)"

definition path_join :: "string \<Rightarrow> string \<Rightarrow> string" where
  "path_join a b =
     (if b \<noteq> [] \<and> hd b = CHR ''/'' then b
      else if a = [] \<or> last a = CHR ''/'' then a @ b
      else a @ ''/'' @ b)"

text \<open>Lines 92 to 129.\<close>

definition process_os_summary ::
  "env \<Rightarrow> series \<Rightarrow> string \<Rightarrow> string \<Rightarrow> string option \<times> event list" where
  "process_os_summary E os_column output_dir timestamp =
     (let table = \<lparr>header = (''Operating System'', ''Count''), entries = os_counts os_column\<rparr>;
          filename = ''os_summary_'' @ timestamp @ ''.csv'';
          output_path = path_join output_dir filename
      in case to_csv E output_path table of
           None \<Rightarrow>
             (Some output_path,
              [WriteFile output_path table, Print (SavedOS output_path),
               Print (FoundOS (length (entries table)))])
         | Some e \<Rightarrow> (None, [Print (SaveErrorOS e)]))"

text \<open>Lines 132 to 172.\<close>

definition process_hostname_summary ::
  "env \<Rightarrow> series \<Rightarrow> string \<Rightarrow> string \<Rightarrow> string option \<times> event list" where
  "process_hostname_summary E hostname_column output_dir timestamp =
     (let table = \<lparr>header = (''Hostname'', ''Count''),
                   entries = hostname_counts hostname_column\<rparr>;
          filename = ''hostname_summary_'' @ timestamp @ ''.csv'';
          output_path = path_join output_dir filename
      in case to_csv E output_path table of
           None \<Rightarrow>
             (Some output_path,
              [WriteFile output_path table, Print (SavedHostname output_path),
               Print (FoundHostnames (length (entries table)))])
         | Some e \<Rightarrow> (None, [Print (SaveErrorHostname e)]))"

text \<open>Lines 174 to 214.\<close>

definition process_vulnerability_summary ::
  "env \<Rightarrow> series \<Rightarrow> string \<Rightarrow> string \<Rightarrow> string option \<times> event list" where
  "process_vulnerability_summary E vuln_column output_dir timestamp =
     (let table = \<lparr>header = (''Vulnerability'', ''Count''), entries = vuln_counts vuln_column\<rparr>;
          filename = ''vuln_'' @ timestamp @ ''.csv'';
          output_path = path_join output_dir filename
      in case to_csv E output_path table of
           None \<Rightarrow>
             (Some output_path,
              [WriteFile output_path table, Print (SavedVulnerability output_path),
               Print (FoundVulnerabilities (length (entries table)))])
         | Some e \<Rightarrow> (None, [Print (SaveErrorVulnerability e)]))"

section \<open>The run\<close>

text \<open>Lines 38 to 41: the directory the reports go to.\<close>

definition output_directory_of :: "string \<Rightarrow> string option \<Rightarrow> string" where
  "output_directory_of input_file_path output_directory =
     (case output_directory of
        Some d \<Rightarrow> d
      | None \<Rightarrow> (let d = dirname input_file_path in if d = [] then ''.'' else d))"

text \<open>
  Lines 61 to 63: the column at a position, or the empty series when the table is not
  that wide.
\<close>

definition column_at :: "dataframe \<Rightarrow> nat \<Rightarrow> series" where
  "column_at df k = (if length df > k then df ! k else [])"

text \<open>Lines 77 to 83: the closing lines, one for each report that has a path.\<close>

definition listing :: "string option \<Rightarrow> string option \<Rightarrow> string option \<Rightarrow> event list" where
  "listing os_summary_path hostname_summary_path vuln_summary_path =
     [Print ReportsGenerated]
     @ (case os_summary_path of Some p \<Rightarrow> [Print (ListedOS p)] | None \<Rightarrow> [])
     @ (case hostname_summary_path of Some p \<Rightarrow> [Print (ListedHostname p)] | None \<Rightarrow> [])
     @ (case vuln_summary_path of Some p \<Rightarrow> [Print (ListedVulnerability p)] | None \<Rightarrow> [])"

text \<open>
  Lines 22 to 89. The directory is made outside the \<open>try\<close>, so an exception there
  leaves the function; everything from line 49 on is inside it.
\<close>

definition process_csv_file ::
  "env \<Rightarrow> string \<Rightarrow> string option \<Rightarrow> bool outcome \<times> event list" where
  "process_csv_file E input_file_path output_directory =
     (if \<not> path_exists E input_file_path
      then (Returned False, [Print (InputNotFound input_file_path)])
      else
        let out = output_directory_of input_file_path output_directory
        in case mkdir E out of
             Some e \<Rightarrow> (Raised e, [])
           | None \<Rightarrow>
               (let timestamp = now E
                in case read_csv E input_file_path of
                     Inl e \<Rightarrow>
                       (Returned False,
                        [MakeDirs out, Print (Reading input_file_path), Print (ProcessingError e)])
                   | Inr df \<Rightarrow>
                       (let warning =
                              (if length df < 8
                               then [Print (TooFewColumns (length df)), Print Proceeding]
                               else []);
                            hostnames = column_at df 2;
                            operating_systems = column_at df 4;
                            vulnerabilities = column_at df 7;
                            (os_summary_path, os_events) =
                              process_os_summary E operating_systems out timestamp;
                            (hostname_summary_path, hostname_events) =
                              process_hostname_summary E hostnames out timestamp;
                            (vuln_summary_path, vuln_events) =
                              process_vulnerability_summary E vulnerabilities out timestamp
                        in (Returned True,
                            [MakeDirs out, Print (Reading input_file_path)] @ warning
                            @ [Print ProcessingOS] @ os_events
                            @ [Print ProcessingHostnames] @ hostname_events
                            @ [Print ProcessingVulnerabilities] @ vuln_events
                            @ listing os_summary_path hostname_summary_path
                                vuln_summary_path))))"

text \<open>
  Lines 217 to 245, with the exit status of the process: 0 when \<open>main\<close> returns, 1
  after \<open>sys.exit(1)\<close> and after an exception nothing caught.
\<close>

definition DEFAULT_INPUT_FILE :: string where
  "DEFAULT_INPUT_FILE = ''input_data.csv''"

definition main :: "env \<Rightarrow> string list \<Rightarrow> nat \<times> event list" where
  "main E argv =
     (let (input_file, arg_events) =
            (if length argv > 1 then (argv ! 1, [])
             else (DEFAULT_INPUT_FILE, [Print (NoInputFile DEFAULT_INPUT_FILE), Print Usage]));
          output_dir = (if length argv > 2 then Some (argv ! 2) else None);
          (success, run_events) = process_csv_file E input_file output_dir
      in case success of
           Returned True \<Rightarrow> (0, arg_events @ run_events @ [Print Completed])
         | Returned False \<Rightarrow> (1, arg_events @ run_events @ [Print Failed])
         | Raised e \<Rightarrow> (1, arg_events @ run_events @ [Traceback e]))"

section \<open>The loader on a column of text\<close>



section \<open>The words of the specification\<close>

text \<open>
  The normalized value of the specification: the text form of the value, trimmed. The
  null-like tokens of the specification: the five listed texts, and any text made of
  whitespace only.
\<close>

definition normalized :: "cell \<Rightarrow> string" where
  "normalized c = strip (astype_str c)"

definition null_like :: "string \<Rightarrow> bool" where
  "null_like v =
     (v = '''' \<or> v = ''nan'' \<or> v = ''NaN'' \<or> v = ''null'' \<or> v = ''NULL'' \<or> list_all isspace v)"

section \<open>A sample run\<close>

text \<open>
  A table of five columns and two rows, and an outside in which only
  \<open>data/servers.csv\<close> exists and the write of the operating-system report is refused.
\<close>

definition sample_table :: dataframe where
  "sample_table =
     [[PInt 1, PInt 2], [PStr ''dc1'', PStr ''dc1''], [PStr ''web01'', PStr ''web02''],
      [PStr ''a'', PStr ''b''], [PStr ''Linux'', PNaN]]"

definition sample_env :: env where
  "sample_env =
     \<lparr>path_exists = (\<lambda>p. p = ''data/servers.csv''),
      mkdir = (\<lambda>d. None),
      now = ''20250101_120000'',
      read_csv = (\<lambda>p. Inr sample_table),
      to_csv = (\<lambda>p t. if p = ''data/os_summary_20250101_120000.csv''
                        then Some ''Permission denied'' else None)\<rparr>"

section \<open>Trimming and the null-like tokens\<close>

lemma blank_strip: "blank (strip s) \<longleftrightarrow> strip s = []"
proof
  assume b: "blank (strip s)"
  show "strip s = []"
  proof (rule ccontr)
    assume ne: "strip s \<noteq> []"
    let ?t = "dropWhile isspace (rev (dropWhile isspace s))"
    from ne have tne: "?t \<noteq> []" by (simp add: strip_def)
    then have "\<not> isspace (hd ?t)" by (rule hd_dropWhile)
    moreover from tne have "hd ?t \<in> set (strip s)" by (simp add: strip_def)
    ultimately show False using b by (auto simp: blank_def list_all_iff)
  qed
next
  assume "strip s = []"
  then show "blank (strip s)" by (simp add: blank_def)
qed

lemma null_like_tokens: "null_like v \<longleftrightarrow> v \<in> set null_tokens \<or> blank v"
  by (auto simp: null_like_def null_tokens_def blank_def)

lemma not_blank_Unknown: "\<not> blank ''Unknown''"
  by (simp add: blank_def isspace_def)

lemma not_null_like_Unknown: "\<not> null_like ''Unknown''"
  by (simp add: null_like_def isspace_def)

section \<open>The cleaned series\<close>

lemma os_cleaned_eq:
  "os_cleaned col = map (\<lambda>c. if null_like (normalized c) then ''Unknown'' else normalized c) col"
  by (auto simp: os_cleaned_def replace_list_def replace_regex_blank_def normalized_def
      null_like_tokens not_blank_Unknown)

lemma dropna_clean:
  "dropna (replace_regex_blank_na (replace_list (map Some null_tokens) None (map Some vs)))
   = filter (\<lambda>v. \<not> null_like v) vs"
  by (induction vs) (auto simp: replace_list_def replace_regex_blank_na_def null_like_tokens)

lemma hostname_cleaned_eq:
  "hostname_cleaned col = filter (\<lambda>v. \<not> null_like v) (map normalized col)"
proof -
  have h: "map strip (map astype_str col) = map normalized col" by (simp add: normalized_def)
  show ?thesis by (simp only: hostname_cleaned_def dropna_clean h)
qed

lemma vuln_cleaned_eq:
  "vuln_cleaned col = filter (\<lambda>v. \<not> null_like v) (map normalized col)"
proof -
  have h: "map strip (map astype_str col) = map normalized col" by (simp add: normalized_def)
  show ?thesis by (simp only: vuln_cleaned_def dropna_clean h)
qed

lemma length_os_cleaned: "length (os_cleaned col) = length col"
  by (simp add: os_cleaned_eq)

section \<open>Counting and sorting\<close>

lemma set_value_counts: "set (value_counts xs) = (\<lambda>l. (l, count_list xs l)) ` set xs"
  by (simp add: value_counts_def unique_def)

lemma inj_on_fst_counts: "inj_on fst ((\<lambda>l. (l, count_list xs l)) ` set xs)"
  by (auto simp: inj_on_def)

lemma distinct_value_counts: "distinct (value_counts xs)"
  by (simp add: value_counts_def unique_def distinct_map inj_on_def)

text \<open>
  The sorted table does not depend on the order \<open>value_counts\<close> leaves the rows in: it
  is the list of the distinct labels in ascending order, each with the number of its
  occurrences.
\<close>

lemma counts_eq:
  "sort_values (value_counts xs) = map (\<lambda>l. (l, count_list xs l)) (sort (remdups xs))"
proof (rule map_sorted_distinct_set_unique [where f = fst])
  let ?h = "\<lambda>l. (l, count_list xs l)"
  have setL: "set (sort_values (value_counts xs)) = ?h ` set xs"
    by (simp add: sort_values_def set_value_counts)
  have setR: "set (map ?h (sort (remdups xs))) = ?h ` set xs" by simp
  show "set (sort_values (value_counts xs)) = set (map ?h (sort (remdups xs)))"
    by (simp only: setL setR)
  show "inj_on fst (set (sort_values (value_counts xs)) \<union> set (map ?h (sort (remdups xs))))"
    by (simp only: setL setR Un_absorb inj_on_fst_counts)
  show "sorted (map fst (sort_values (value_counts xs)))"
    by (simp add: sort_values_def sorted_sort_key)
  show "distinct (map fst (sort_values (value_counts xs)))"
    unfolding distinct_map setL
    by (simp add: sort_values_def distinct_value_counts inj_on_fst_counts)
  have fstR: "map fst (map ?h (sort (remdups xs))) = sort (remdups xs)"
    by (simp add: comp_def)
  show "sorted (map fst (map ?h (sort (remdups xs))))" by (simp only: fstR sorted_sort)
  show "distinct (map fst (map ?h (sort (remdups xs))))" by (simp only: fstR) simp
qed

lemma sum_counts: "sum_list (map (count_list xs) (sort (remdups xs))) = length xs"
proof -
  have "sum_list (map (count_list xs) (sort (remdups xs))) = sum (count_list xs) (set xs)"
    by (subst sum_list_distinct_conv_sum_set) simp_all
  also have "\<dots> = length xs" by (rule sum_count_set) simp_all
  finally show ?thesis .
qed

lemma sum_sorted_counts: "sum_list (map snd (sort_values (value_counts xs))) = length xs"
proof -
  have "map snd (sort_values (value_counts xs)) = map (count_list xs) (sort (remdups xs))"
    by (simp add: counts_eq comp_def)
  then show ?thesis by (simp only: sum_counts)
qed

lemma sorted_counts: "sorted (map fst (sort_values (value_counts xs)))"
  by (simp add: sort_values_def sorted_sort_key)

lemma distinct_counts: "distinct (map fst (sort_values (value_counts xs)))"
  by (simp add: counts_eq comp_def)

lemma positive_counts:
  assumes "r \<in> set (sort_values (value_counts xs))"
  shows "1 \<le> snd r"
proof -
  from assms obtain l where l: "l \<in> set xs" and r: "r = (l, count_list xs l)"
    by (auto simp: counts_eq)
  from l have "count_list xs l \<noteq> 0" by (simp add: count_list_0_iff)
  with r show ?thesis by simp
qed

lemma os_counts_eq:
  "os_counts col = map (\<lambda>l. (l, count_list (os_cleaned col) l)) (sort (remdups (os_cleaned col)))"
  by (simp only: os_counts_def counts_eq)

lemma hostname_counts_eq:
  "hostname_counts col =
   map (\<lambda>l. (l, count_list (hostname_cleaned col) l)) (sort (remdups (hostname_cleaned col)))"
  by (simp only: hostname_counts_def counts_eq)

lemma vuln_counts_eq:
  "vuln_counts col =
   map (\<lambda>l. (l, count_list (vuln_cleaned col) l)) (sort (remdups (vuln_cleaned col)))"
  by (simp only: vuln_counts_def counts_eq)


lemma length_filter_map: "length (filter P (map f xs)) = length (filter (\<lambda>x. P (f x)) xs)"
  by (induction xs) auto

lemma count_list_map_filter: "count_list (map f xs) u = length (filter (\<lambda>x. f x = u) xs)"
  by (induction xs) auto

lemma length_filter_disj:
  "(\<And>x. \<not> (P x \<and> Q x)) \<Longrightarrow>
   length (filter (\<lambda>x. P x \<or> Q x) xs) = length (filter P xs) + length (filter Q xs)"
  by (induction xs) auto

lemma filter_label_distinct:
  "distinct ls \<Longrightarrow>
   filter (\<lambda>r. fst r = u) (map (\<lambda>l. (l, f l)) ls) = (if u \<in> set ls then [(u, f u)] else [])"
  by (induction ls) auto

lemma sorted_adjacent: "sorted ys \<Longrightarrow> Suc i < length ys \<Longrightarrow> ys ! i \<le> ys ! Suc i"
  by (simp add: sorted_iff_nth_Suc)

section \<open>The summaries\<close>

text \<open>
  Claim C1. For every column, the counts of the operating-system summary (null-like
  values replaced by \<open>Unknown\<close>) add up to the number of input values, and the counts
  of the hostname and vulnerability summaries (null-like values dropped) add up to the
  number of input values whose normalized text is not null-like. Each summary has one
  row for each distinct label of the cleaned series, holding exactly the number of
  occurrences of that label there; labels that differ only in case are different
  labels.
\<close>

theorem counts_sum_and_cardinality:
  "sum_list (map snd (os_counts col)) = length col
   \<and> sum_list (map snd (hostname_counts col))
       = length (filter (\<lambda>c. \<not> null_like (normalized c)) col)
   \<and> sum_list (map snd (vuln_counts col))
       = length (filter (\<lambda>c. \<not> null_like (normalized c)) col)
   \<and> os_counts col
       = map (\<lambda>l. (l, count_list (os_cleaned col) l)) (sort (remdups (os_cleaned col)))
   \<and> hostname_counts col
       = map (\<lambda>l. (l, count_list (hostname_cleaned col) l))
           (sort (remdups (hostname_cleaned col)))
   \<and> vuln_counts col
       = map (\<lambda>l. (l, count_list (vuln_cleaned col) l)) (sort (remdups (vuln_cleaned col)))
   \<and> os_counts [PStr ''Linux'', PStr ''linux'', PStr ''Linux'']
       = [(''Linux'', 2), (''linux'', 1)]"
proof -
  have a: "sum_list (map snd (os_counts col)) = length col"
    by (simp only: os_counts_def sum_sorted_counts length_os_cleaned)
  have b: "sum_list (map snd (hostname_counts col))
       = length (filter (\<lambda>c. \<not> null_like (normalized c)) col)"
    by (simp only: hostname_counts_def sum_sorted_counts hostname_cleaned_eq length_filter_map)
  have c: "sum_list (map snd (vuln_counts col))
       = length (filter (\<lambda>c. \<not> null_like (normalized c)) col)"
    by (simp only: vuln_counts_def sum_sorted_counts vuln_cleaned_eq length_filter_map)
  have d: "os_counts [PStr ''Linux'', PStr ''linux'', PStr ''Linux'']
       = [(''Linux'', 2), (''linux'', 1)]"
    by code_simp
  from a b c d os_counts_eq [of col] hostname_counts_eq [of col] vuln_counts_eq [of col]
  show ?thesis by blast
qed

text \<open>
  Claim C2. In the operating-system summary every value whose normalized text is
  null-like is counted under the label \<open>Unknown\<close>; in the hostname and vulnerability
  summaries such a value is left out before counting; every other value is counted
  under its normalized text. The hostname column \<open>web01\<close>, empty, \<open>web01\<close>, two spaces
  gives the single row \<open>(web01, 2)\<close>.
\<close>

theorem null_policy_applied:
  "os_cleaned col
     = map (\<lambda>c. if null_like (normalized c) then ''Unknown'' else normalized c) col
   \<and> hostname_cleaned col = filter (\<lambda>v. \<not> null_like v) (map normalized col)
   \<and> vuln_cleaned col = filter (\<lambda>v. \<not> null_like v) (map normalized col)
   \<and> os_counts col
     = sort_values (value_counts
         (map (\<lambda>c. if null_like (normalized c) then ''Unknown'' else normalized c) col))
   \<and> hostname_counts col
     = sort_values (value_counts (filter (\<lambda>v. \<not> null_like v) (map normalized col)))
   \<and> vuln_counts col
     = sort_values (value_counts (filter (\<lambda>v. \<not> null_like v) (map normalized col)))
   \<and> hostname_counts [PStr ''web01'', PStr '''', PStr ''web01'', PStr ''  '']
     = [(''web01'', 2)]"
proof -
  have s: "hostname_counts [PStr ''web01'', PStr '''', PStr ''web01'', PStr ''  '']
     = [(''web01'', 2)]"
    by code_simp
  have o: "os_counts col
     = sort_values (value_counts
         (map (\<lambda>c. if null_like (normalized c) then ''Unknown'' else normalized c) col))"
    by (simp only: os_counts_def os_cleaned_eq)
  have h: "hostname_counts col
     = sort_values (value_counts (filter (\<lambda>v. \<not> null_like v) (map normalized col)))"
    by (simp only: hostname_counts_def hostname_cleaned_eq)
  have v: "vuln_counts col
     = sort_values (value_counts (filter (\<lambda>v. \<not> null_like v) (map normalized col)))"
    by (simp only: vuln_counts_def vuln_cleaned_eq)
  from s o h v os_cleaned_eq [of col] hostname_cleaned_eq [of col] vuln_cleaned_eq [of col]
  show ?thesis by blast
qed

text \<open>
  Claim C3. The code treats a value as null (drops it from the hostname and
  vulnerability series, replaces it by \<open>Unknown\<close> in the operating-system series)
  exactly when its normalized text is one of the empty text, \<open>nan\<close>, \<open>NaN\<close>, \<open>null\<close>,
  \<open>NULL\<close>, or is made of whitespace only. The empty text, three spaces, \<open>nan\<close>, \<open>NaN\<close>,
  \<open>null\<close> and \<open>NULL\<close> are treated so; \<open>n/a\<close>, \<open>Null\<close> and \<open>NAN\<close> are not.
\<close>

theorem null_like_classification:
  "(hostname_cleaned [c] = []
      \<longleftrightarrow> normalized c \<in> {'''', ''nan'', ''NaN'', ''null'', ''NULL''}
          \<or> list_all isspace (normalized c))
   \<and> (vuln_cleaned [c] = []
      \<longleftrightarrow> normalized c \<in> {'''', ''nan'', ''NaN'', ''null'', ''NULL''}
          \<or> list_all isspace (normalized c))
   \<and> os_cleaned [c]
       = [if normalized c \<in> {'''', ''nan'', ''NaN'', ''null'', ''NULL''}
             \<or> list_all isspace (normalized c)
          then ''Unknown'' else normalized c]
   \<and> hostname_cleaned
        [PStr '''', PStr ''   '', PStr ''nan'', PStr ''NaN'', PStr ''null'', PStr ''NULL'',
         PStr ''n/a'', PStr ''Null'', PStr ''NAN'']
       = [''n/a'', ''Null'', ''NAN'']
   \<and> os_cleaned
        [PStr '''', PStr ''   '', PStr ''nan'', PStr ''NaN'', PStr ''null'', PStr ''NULL'',
         PStr ''n/a'']
       = [''Unknown'', ''Unknown'', ''Unknown'', ''Unknown'', ''Unknown'', ''Unknown'', ''n/a'']"
proof -
  have n: "null_like v \<longleftrightarrow>
      v \<in> {'''', ''nan'', ''NaN'', ''null'', ''NULL''} \<or> list_all isspace v" for v
    by (simp add: null_like_def)
  have h: "hostname_cleaned [c] = [] \<longleftrightarrow> null_like (normalized c)"
    by (simp add: hostname_cleaned_eq)
  have v: "vuln_cleaned [c] = [] \<longleftrightarrow> null_like (normalized c)"
    by (simp add: vuln_cleaned_eq)
  have o: "os_cleaned [c] = [if null_like (normalized c) then ''Unknown'' else normalized c]"
    by (simp add: os_cleaned_eq)
  have e1: "hostname_cleaned
        [PStr '''', PStr ''   '', PStr ''nan'', PStr ''NaN'', PStr ''null'', PStr ''NULL'',
         PStr ''n/a'', PStr ''Null'', PStr ''NAN'']
       = [''n/a'', ''Null'', ''NAN'']"
    by code_simp
  have e2: "os_cleaned
        [PStr '''', PStr ''   '', PStr ''nan'', PStr ''NaN'', PStr ''null'', PStr ''NULL'',
         PStr ''n/a'']
       = [''Unknown'', ''Unknown'', ''Unknown'', ''Unknown'', ''Unknown'', ''Unknown'', ''n/a'']"
    by code_simp
  from h v o e1 e2 show ?thesis unfolding n by blast
qed

text \<open>
  Claim C4. The rows of every summary are in ascending order of label under the
  code-point order of texts: each row's label is at most the label of the row after
  it. The operating-system column \<open>Linux\<close>, \<open>linux\<close> between spaces, empty, \<open>Windows\<close>
  gives the rows \<open>Linux\<close>, \<open>Unknown\<close>, \<open>Windows\<close>, \<open>linux\<close>, each with count 1.
\<close>

theorem summary_sorted_by_label:
  "(\<forall>rows \<in> {os_counts col, hostname_counts col, vuln_counts col}.
      sorted (map fst rows)
      \<and> (\<forall>i. Suc i < length rows \<longrightarrow> fst (rows ! i) \<le> fst (rows ! Suc i)))
   \<and> os_counts [PStr ''Linux'', PStr '' linux '', PStr '''', PStr ''Windows'']
       = [(''Linux'', 1), (''Unknown'', 1), (''Windows'', 1), (''linux'', 1)]"
proof -
  have adj: "\<forall>i. Suc i < length rows \<longrightarrow> fst (rows ! i) \<le> fst (rows ! Suc i)"
    if "sorted (map fst rows)" for rows :: "(string \<times> nat) list"
    using sorted_adjacent [OF that] by simp
  have s: "os_counts [PStr ''Linux'', PStr '' linux '', PStr '''', PStr ''Windows'']
       = [(''Linux'', 1), (''Unknown'', 1), (''Windows'', 1), (''linux'', 1)]"
    by code_simp
  have "sorted (map fst (os_counts col))" "sorted (map fst (hostname_counts col))"
    "sorted (map fst (vuln_counts col))"
    by (simp_all only: os_counts_def hostname_counts_def vuln_counts_def sorted_counts)
  with adj s show ?thesis by blast
qed

theorem summary_sorted_by_label_witness:
  "os_counts [PStr ''Linux'', PStr '' linux '', PStr '''', PStr ''Windows'']
     \<in> {os_counts [PStr ''Linux'', PStr '' linux '', PStr '''', PStr ''Windows''],
         hostname_counts [PStr ''Linux'', PStr '' linux '', PStr '''', PStr ''Windows''],
         vuln_counts [PStr ''Linux'', PStr '' linux '', PStr '''', PStr ''Windows'']}
   \<and> Suc 2 < length (os_counts [PStr ''Linux'', PStr '' linux '', PStr '''', PStr ''Windows''])
   \<and> fst (os_counts [PStr ''Linux'', PStr '' linux '', PStr '''', PStr ''Windows''] ! 2)
       \<le> fst (os_counts [PStr ''Linux'', PStr '' linux '', PStr '''', PStr ''Windows'']
               ! Suc 2)
   \<and> ''Windows'' \<le> ''linux''"
proof -
  let ?col = "[PStr ''Linux'', PStr '' linux '', PStr '''', PStr ''Windows'']"
  note t = summary_sorted_by_label [of ?col]
  from t have e: "os_counts ?col
       = [(''Linux'', 1), (''Unknown'', 1), (''Windows'', 1), (''linux'', 1)]"
    by (rule conjunct2)
  from t have a: "\<forall>i. Suc i < length (os_counts ?col)
       \<longrightarrow> fst (os_counts ?col ! i) \<le> fst (os_counts ?col ! Suc i)"
    by blast
  have l: "Suc 2 < length (os_counts ?col)" by (simp add: e)
  with a have o: "fst (os_counts ?col ! 2) \<le> fst (os_counts ?col ! Suc 2)" by blast
  then have w: "''Windows'' \<le> ''linux''" by (simp add: e)
  from l o w show ?thesis by blast
qed

text \<open>
  Claim C7. In every summary no two rows have the same label, and every count is a
  whole number that is at least 1.
\<close>

theorem labels_unique_counts_positive:
  "\<forall>rows \<in> {os_counts col, hostname_counts col, vuln_counts col}.
      distinct (map fst rows) \<and> (\<forall>r \<in> set rows. 1 \<le> snd r)"
  by (auto simp only: os_counts_def hostname_counts_def vuln_counts_def distinct_counts
      intro: positive_counts)

theorem labels_unique_counts_positive_witness:
  "(''web01'', 2) \<in> set (hostname_counts [PStr ''web01'', PStr '''', PStr ''web01'', PStr ''  ''])
   \<and> distinct (map fst
        (hostname_counts [PStr ''web01'', PStr '''', PStr ''web01'', PStr ''  '']))
   \<and> (1::nat) \<le> snd (''web01'', 2::nat)"
proof -
  let ?col = "[PStr ''web01'', PStr '''', PStr ''web01'', PStr ''  '']"
  have e: "hostname_counts ?col = [(''web01'', 2)]" by code_simp
  then have m: "(''web01'', 2) \<in> set (hostname_counts ?col)" by simp
  from labels_unique_counts_positive [of ?col]
  have d: "distinct (map fst (hostname_counts ?col))"
    and p: "\<forall>r \<in> set (hostname_counts ?col). 1 \<le> snd r"
    by blast+
  from p m have "(1::nat) \<le> snd (''web01'', 2::nat)" by blast
  with m d show ?thesis by blast
qed

text \<open>
  Claim C10. In the operating-system summary the values whose normalized text is the
  text \<open>Unknown\<close> and the null-like values share one row: when there is any such value
  the summary has exactly one row labelled \<open>Unknown\<close>, and its count is the number of
  the former plus the number of the latter; otherwise it has no such row.
\<close>

theorem unknown_sentinel_merged:
  "filter (\<lambda>r. fst r = ''Unknown'') (os_counts col)
     = (let n = length (filter (\<lambda>c. normalized c = ''Unknown'') col)
                + length (filter (\<lambda>c. null_like (normalized c)) col)
        in if n = 0 then [] else [(''Unknown'', n)])
   \<and> os_counts [PStr ''Unknown'', PStr '''', PNaN, PStr '' Unknown '', PStr ''Linux'']
     = [(''Linux'', 1), (''Unknown'', 4)]"
proof -
  let ?U = "''Unknown''"
  let ?f = "\<lambda>c. if null_like (normalized c) then ?U else normalized c"
  let ?n = "length (filter (\<lambda>c. normalized c = ?U) col)
            + length (filter (\<lambda>c. null_like (normalized c)) col)"
  have eqv: "?f c = ?U \<longleftrightarrow> normalized c = ?U \<or> null_like (normalized c)" for c
    by simp
  have cnt: "count_list (os_cleaned col) ?U = ?n"
  proof -
    have "count_list (os_cleaned col) ?U
          = length (filter (\<lambda>c. normalized c = ?U \<or> null_like (normalized c)) col)"
      by (simp only: os_cleaned_eq count_list_map_filter eqv)
    also have "\<dots> = ?n"
      by (rule length_filter_disj) (auto simp: not_null_like_Unknown)
    finally show ?thesis .
  qed
  have mem: "?U \<in> set (os_cleaned col) \<longleftrightarrow> ?n \<noteq> 0"
    using cnt count_list_0_iff [of "os_cleaned col" ?U] by simp
  have "filter (\<lambda>r. fst r = ?U) (os_counts col)
        = (if ?U \<in> set (os_cleaned col) then [(?U, count_list (os_cleaned col) ?U)] else [])"
    by (simp only: os_counts_eq) (simp add: filter_label_distinct)
  then have a: "filter (\<lambda>r. fst r = ?U) (os_counts col)
        = (let n = ?n in if n = 0 then [] else [(?U, n)])"
    by (simp only: mem cnt Let_def) simp
  have b: "os_counts [PStr ''Unknown'', PStr '''', PNaN, PStr '' Unknown '', PStr ''Linux'']
     = [(''Linux'', 1), (''Unknown'', 4)]"
    by code_simp
  from a b show ?thesis by blast
qed

section \<open>The run\<close>


text \<open>
  Claim C8. When the input path does not exist, \<open>process_csv_file\<close> reports that the
  input file was not found and returns \<open>False\<close>, and the run ends with exit status 1
  after the failure line; nothing else happens: no directory is made and no file is
  written.
\<close>

theorem missing_input_aborts:
  fixes argv :: "string list"
  defines "input_file \<equiv> if 1 < length argv then argv ! 1 else DEFAULT_INPUT_FILE"
  assumes "\<not> path_exists E input_file"
  shows "process_csv_file E input_file output_dir
           = (Returned False, [Print (InputNotFound input_file)])
     \<and> main E argv
         = (1, (if 1 < length argv then []
                else [Print (NoInputFile DEFAULT_INPUT_FILE), Print Usage])
               @ [Print (InputNotFound input_file), Print Failed])"
proof -
  have a: "process_csv_file E input_file od = (Returned False, [Print (InputNotFound input_file)])"
    for od
    using assms(2) by (simp add: process_csv_file_def)
  have b: "main E argv
         = (1, (if 1 < length argv then []
                else [Print (NoInputFile DEFAULT_INPUT_FILE), Print Usage])
               @ [Print (InputNotFound input_file), Print Failed])"
  proof (cases "1 < length argv")
    case True
    with a show ?thesis by (simp add: main_def input_file_def)
  next
    case False
    with a show ?thesis by (simp add: main_def input_file_def)
  qed
  from a b show ?thesis by blast
qed

theorem missing_input_aborts_witness:
  "\<not> path_exists sample_env ''missing.csv''
   \<and> main sample_env [''csv-processor.py'', ''missing.csv'', ''out'']
       = (1, [Print (InputNotFound ''missing.csv''), Print Failed])"
proof -
  have h: "\<not> path_exists sample_env
     (if 1 < length [''csv-processor.py'', ''missing.csv'', ''out'']
      then [''csv-processor.py'', ''missing.csv'', ''out''] ! 1 else DEFAULT_INPUT_FILE)"
    by (simp add: sample_env_def)
  from missing_input_aborts [OF h] h show ?thesis by simp
qed














section \<open>The loader and the text the summarizer works on\<close>



end
